theory Spec2Isabelle
  imports Main
begin

section \<open>Data model of the scheduler\<close>

text \<open>
  The errors that travel through \<^verbatim>\<open>JobScheduler.ts\<close>: the two \<^verbatim>\<open>MomoError\<close>
  constants the file names, and any other error value (a rejected store call, a rejected
  executor promise), identified by its message.
\<close>

datatype error = jobNotFound | nonParsableInterval | other string

datatype MomoErrorType = scheduleJob | executeJob | internal

datatype ExecutionStatus = finished | failed | maxRunningReached | notFound

record JobResult =
  status :: ExecutionStatus

text \<open>
  \<^verbatim>\<open>JobEntity\<close>, with the fields that \<^verbatim>\<open>JobScheduler.ts\<close> reads. The numbers are
  JavaScript numbers holding integers; \<^verbatim>\<open>running\<close> may be undefined (the source reads
  it as \<^verbatim>\<open>jobEntity.running ?? 0\<close>), \<open>lastFinished\<close> is the time stamp of the
  execution info, when there is one.
\<close>

record JobEntity =
  name :: string
  interval :: string
  concurrency :: int
  maxRunning :: int
  running :: "int option"
  lastFinished :: "int option"

text \<open>The value of \<^verbatim>\<open>humanInterval(s)\<close>: a number, \<^verbatim>\<open>undefined\<close> or \<^verbatim>\<open>NaN\<close>.\<close>

datatype js_number = Undefined | NaN | Num int

text \<open>What the logger receives.\<close>

datatype log_entry =
    LogError string MomoErrorType string error
  | LogDebug string "int list"

text \<open>
  The result of \<^verbatim>\<open>getJobRepository().findOne(...)\<close> once awaited: the promise rejects
  with an error, or resolves to the entity or to \<^verbatim>\<open>undefined\<close>.
\<close>

type_synonym find_result = "error + JobEntity option"

text \<open>
  Modelled from the spec: \<^verbatim>\<open>JobExecutor.execute\<close> is not among the sources. It is
  asynchronous (section 4.3; the scheduler chains \<^verbatim>\<open>.catch\<close> and \<^verbatim>\<open>.finally\<close> on its
  result): a call returns a promise at once, which later resolves to a \<open>JobResult\<close> or
  rejects with an error.
\<close>

datatype exec_outcome = Resolves JobResult | Rejects error

text \<open>
  The constructor arguments of a \<^verbatim>\<open>JobScheduler\<close> that never change, and the interval
  parser it imports.
\<close>

record config =
  jobName :: string
  immediate :: bool
  humanInterval :: "string \<Rightarrow> js_number"

text \<open>
  A \<^verbatim>\<open>start()\<close> call in flight waits first for its \<^verbatim>\<open>stop()\<close> (for the promises that
  were pending when it was called), then for \<^verbatim>\<open>findOne\<close>.
\<close>

datatype start_phase = AwaitStop "nat list" | AwaitFindOne

text \<open>What an observer of the scheduler sees, in order.\<close>

datatype obs =
    Invoked nat
  | InvokedOnce
  | Settled nat
  | StopResolved
  | StartCalled
  | StartResolved
  | StartRejected error

text \<open>
  The mutable fields of the \<^verbatim>\<open>JobScheduler\<close> object (\<open>jobHandle\<close>,
  \<open>unexpectedErrorCount\<close>, \<open>this_interval\<close> for \<^verbatim>\<open>this.interval\<close>,
  \<open>pendingExecutions\<close>) together with what surrounds it on the event loop: the timers
  that are armed and not cleared, the executor promises not yet settled, the calls of
  \<^verbatim>\<open>executeConcurrently\<close>, \<^verbatim>\<open>stop\<close> and \<^verbatim>\<open>start\<close> that are suspended at an
  \<^verbatim>\<open>await\<close>, the logger's output and the observable history. Timers and promises are
  identified by numbers drawn from \<open>fresh\<close>.
\<close>

record world =
  jobHandle :: "nat option"
  unexpectedErrorCount :: nat
  this_interval :: "string option"
  pendingExecutions :: "nat list"
  timers :: "nat list"
  unsettled :: "nat list"
  ticks :: nat
  stops :: "nat list list"
  starts :: "start_phase list"
  logs :: "log_entry list"
  history :: "obs list"
  fresh :: nat

definition getUnexpectedErrorCount :: "world \<Rightarrow> nat" where
  "getUnexpectedErrorCount w = unexpectedErrorCount w"

definition isStarted :: "world \<Rightarrow> bool" where
  "isStarted w = (jobHandle w \<noteq> None)"

section \<open>The operations of JobScheduler, one definition per run between awaits\<close>

definition handleUnexpectedError :: "config \<Rightarrow> error \<Rightarrow> world \<Rightarrow> world" where
  "handleUnexpectedError cfg e w =
     w\<lparr>unexpectedErrorCount := unexpectedErrorCount w + 1,
       logs := logs w @
         [LogError ''an unexpected error occurred while running job'' executeJob (jobName cfg) e]\<rparr>"

text \<open>
  Modelled from the spec: \<^verbatim>\<open>calculateDelay\<close> is not among the sources; section 4.2 gives
  its four cases, which differ only in whether there was a prior execution.
\<close>

definition calculateDelay :: "int \<Rightarrow> bool \<Rightarrow> JobEntity \<Rightarrow> int \<Rightarrow> int" where
  "calculateDelay ms imm j now =
     (case lastFinished j of
        None \<Rightarrow> (if imm then 0 else ms)
      | Some t \<Rightarrow> max 0 (ms - (now - t)))"

text \<open>
  Modelled from the spec: \<^verbatim>\<open>setIntervalWithDelay\<close> is not among the sources; by
  section 4.1 it arms a timer that fires until it is stopped and returns its handle.
  \<^verbatim>\<open>clearInterval\<close> on the handle disarms it.
\<close>

definition setIntervalWithDelay :: "world \<Rightarrow> nat \<times> world" where
  "setIntervalWithDelay w = (fresh w, w\<lparr>timers := timers w @ [fresh w], fresh := fresh w + 1\<rparr>)"

definition clearInterval :: "nat \<Rightarrow> world \<Rightarrow> world" where
  "clearInterval h w = w\<lparr>timers := removeAll h (timers w)\<rparr>"

text \<open>
  \<^verbatim>\<open>stop()\<close> up to its \<^verbatim>\<open>await\<close>: the handle is cleared; when executions are pending
  the call suspends on \<^verbatim>\<open>Promise.all\<close> of the promises pending at that moment (the
  second component), otherwise it returns.
\<close>

definition stop_begin :: "config \<Rightarrow> world \<Rightarrow> world \<times> nat list option" where
  "stop_begin cfg w =
     (let w1 = (case jobHandle w of
                  None \<Rightarrow> w
                | Some h \<Rightarrow> (clearInterval h w)\<lparr>jobHandle := None, this_interval := None\<rparr>)
      in if length (pendingExecutions w1) > 0
         then (w1\<lparr>logs := logs w1 @
                 [LogDebug ''wait for pending executions to finish''
                    [int (length (pendingExecutions w1))]]\<rparr>,
               Some (pendingExecutions w1))
         else (w1, None))"

text \<open>
  \<^verbatim>\<open>start()\<close> after \<^verbatim>\<open>await this.stop()\<close>, resumed with the result of \<^verbatim>\<open>findOne\<close>
  at time \<open>now\<close>. The first component is the error that the call throws, if any.
\<close>

definition start_resume :: "config \<Rightarrow> find_result \<Rightarrow> int \<Rightarrow> world \<Rightarrow> error option \<times> world" where
  "start_resume cfg r now w =
     (case r of
        Inl e \<Rightarrow> (Some e, w)
      | Inr None \<Rightarrow>
          (None, w\<lparr>logs := logs w @
             [LogError ''cannot schedule job'' scheduleJob (jobName cfg) jobNotFound]\<rparr>)
      | Inr (Some j) \<Rightarrow>
          (case humanInterval cfg (interval j) of
             Undefined \<Rightarrow> (Some nonParsableInterval, w)
           | NaN \<Rightarrow> (Some nonParsableInterval, w)
           | Num ms \<Rightarrow>
               if ms = 0 then (Some nonParsableInterval, w)
               else
                 let w1 = w\<lparr>this_interval := Some (interval j)\<rparr>;
                     delay = calculateDelay ms (immediate cfg) j now;
                     (h, w2) = setIntervalWithDelay w1;
                     w3 = w2\<lparr>jobHandle := Some h\<rparr>
                 in (None, w3\<lparr>logs := logs w3 @
                       [LogDebug ''scheduled job to run at'' [now + delay, ms, delay]]\<rparr>)))"

text \<open>One pass of the loop body of \<^verbatim>\<open>executeConcurrently\<close>: an executor invocation
  is started and its promise is pushed on \<open>pendingExecutions\<close>.\<close>

definition launch :: "world \<Rightarrow> world" where
  "launch w =
     w\<lparr>pendingExecutions := pendingExecutions w @ [fresh w],
       unsettled := unsettled w @ [fresh w],
       history := history w @ [Invoked (fresh w)],
       fresh := fresh w + 1\<rparr>"

function launch_loop :: "int \<Rightarrow> int \<Rightarrow> world \<Rightarrow> world" where
  "launch_loop i n w = (if i < n then launch_loop (i + 1) n (launch w) else w)"
  by pat_completeness auto
termination
  by (relation "measure (\<lambda>(i, n, w). nat (n - i))") auto

declare launch_loop.simps [simp del]

definition numToExecute :: "JobEntity \<Rightarrow> int" where
  "numToExecute j =
     (if maxRunning j > 0
      then min (concurrency j) (maxRunning j - (case running j of None \<Rightarrow> 0 | Some r \<Rightarrow> r))
      else concurrency j)"

text \<open>The body of the \<^verbatim>\<open>try\<close> of \<^verbatim>\<open>executeConcurrently\<close>, resumed with the result of
  \<^verbatim>\<open>findOne\<close>; \<open>Inl\<close> is an error thrown inside it.\<close>

definition executeConcurrently_try :: "config \<Rightarrow> find_result \<Rightarrow> world \<Rightarrow> error + world" where
  "executeConcurrently_try cfg r w =
     (case r of
        Inl e \<Rightarrow> Inl e
      | Inr None \<Rightarrow>
          Inr (w\<lparr>logs := logs w @
             [LogError ''job not found, skip execution'' executeJob (jobName cfg) jobNotFound]\<rparr>)
      | Inr (Some j) \<Rightarrow>
          Inr (launch_loop 0 (numToExecute j)
                 (w\<lparr>logs := logs w @ [LogDebug ''execute job'' [numToExecute j]]\<rparr>)))"

definition executeConcurrently :: "config \<Rightarrow> find_result \<Rightarrow> world \<Rightarrow> world" where
  "executeConcurrently cfg r w =
     (case executeConcurrently_try cfg r w of
        Inl e \<Rightarrow> handleUnexpectedError cfg e w
      | Inr w' \<Rightarrow> w')"

text \<open>
  The handlers chained on an executor promise, run when it settles: \<^verbatim>\<open>.catch\<close> counts
  a rejection, \<^verbatim>\<open>.finally\<close> removes the promise from \<open>pendingExecutions\<close>
  (\<^verbatim>\<open>indexOf\<close> and \<^verbatim>\<open>splice\<close> remove its first occurrence).
\<close>

definition settle :: "config \<Rightarrow> nat \<Rightarrow> exec_outcome \<Rightarrow> world \<Rightarrow> world" where
  "settle cfg p out w =
     (let w1 = (case out of Rejects e \<Rightarrow> handleUnexpectedError cfg e w | Resolves r \<Rightarrow> w)
      in w1\<lparr>pendingExecutions := remove1 p (pendingExecutions w1),
            unsettled := remove1 p (unsettled w1),
            history := history w1 @ [Settled p]\<rparr>)"

text \<open>
  \<^verbatim>\<open>executeOnce\<close>. Inside the \<^verbatim>\<open>try\<close> the source awaits \<^verbatim>\<open>findOne\<close> but returns the
  executor's promise without awaiting it: an \<^verbatim>\<open>async\<close> function that returns a promise
  settles as that promise does, after the \<^verbatim>\<open>try\<close> block has been left, so the
  \<^verbatim>\<open>catch\<close> sees a rejection of \<^verbatim>\<open>findOne\<close> and not one of the executor. \<open>Inl e\<close>
  is the promise of \<^verbatim>\<open>executeOnce\<close> rejecting with \<open>e\<close>.
\<close>

definition executeOnce :: "config \<Rightarrow> find_result \<Rightarrow> exec_outcome \<Rightarrow> world \<Rightarrow> (error + JobResult) \<times> world" where
  "executeOnce cfg r out w =
     (case r of
        Inl e \<Rightarrow> (Inr \<lparr>status = failed\<rparr>, handleUnexpectedError cfg e w)
      | Inr None \<Rightarrow>
          (Inr \<lparr>status = notFound\<rparr>,
           w\<lparr>logs := logs w @
             [LogError ''job not found, skip execution'' executeJob (jobName cfg) jobNotFound]\<rparr>)
      | Inr (Some j) \<Rightarrow>
          (case out of
             Resolves res \<Rightarrow> (Inr res, w\<lparr>history := history w @ [InvokedOnce]\<rparr>)
           | Rejects e \<Rightarrow> (Inl e, w\<lparr>history := history w @ [InvokedOnce]\<rparr>)))"

text \<open>
  \<^verbatim>\<open>getJobDescription\<close>, resumed with the result of \<^verbatim>\<open>findOne\<close>. The description is
  the entity (\<^verbatim>\<open>jobDescriptionFromEntity\<close> is not among the sources) with the scheduler
  status: the interval and the running count, when the scheduler is started.
\<close>

definition getJobDescription ::
  "config \<Rightarrow> find_result \<Rightarrow> world \<Rightarrow> (error + (JobEntity \<times> (string \<times> int option) option) option) \<times> world" where
  "getJobDescription cfg r w =
     (case r of
        Inl e \<Rightarrow> (Inl e, w)
      | Inr None \<Rightarrow>
          (Inr None,
           w\<lparr>logs := logs w @
             [LogError ''get job description - job not found'' scheduleJob (jobName cfg)
                jobNotFound]\<rparr>)
      | Inr (Some j) \<Rightarrow>
          (Inr (Some (j, (case this_interval w of
                            None \<Rightarrow> None
                          | Some i \<Rightarrow> Some (i, running j)))),
           w))"

text \<open>The number of executor invocations that ticks have started so far.\<close>

fun is_Invoked :: "obs \<Rightarrow> bool" where
  "is_Invoked (Invoked p) = True"
| "is_Invoked _ = False"

definition launched :: "world \<Rightarrow> nat" where
  "launched w = length (filter is_Invoked (history w))"

section \<open>The scheduler on the event loop\<close>

text \<open>
  JavaScript runs each piece of code between two \<^verbatim>\<open>await\<close>s to its end before the next
  piece starts. An event is one such piece: a timer firing (which calls
  \<^verbatim>\<open>executeConcurrently\<close>, suspended at once on \<^verbatim>\<open>findOne\<close>), a suspended tick
  resuming with the result of \<^verbatim>\<open>findOne\<close>, an executor promise settling, a call of
  \<^verbatim>\<open>stop()\<close> or \<^verbatim>\<open>start()\<close> and their resumptions, and a call of
  \<^verbatim>\<open>executeOnce()\<close> or \<^verbatim>\<open>getJobDescription()\<close> (they read and write nothing of
  the scheduler before they resume, so each is one event).
\<close>

datatype event =
    Fire nat
  | TickFindOne find_result
  | Settle nat exec_outcome
  | StopCall
  | StopReturn nat
  | StartCall
  | StartStopDone nat
  | StartFindOne nat find_result int
  | ExecuteOnce find_result exec_outcome
  | GetJobDescription find_result

definition drop_nth :: "nat \<Rightarrow> 'a list \<Rightarrow> 'a list" where
  "drop_nth k xs = take k xs @ drop (Suc k) xs"

text \<open>\<^verbatim>\<open>Promise.all(ps)\<close> has resolved: none of \<open>ps\<close> is unsettled.\<close>

definition all_settled :: "nat list \<Rightarrow> world \<Rightarrow> bool" where
  "all_settled ps w = list_all (\<lambda>p. p \<notin> set (unsettled w)) ps"

text \<open>One event; \<open>None\<close> when it cannot happen in this state (a timer that is not
  armed does not fire, an \<^verbatim>\<open>await\<close> does not resume before its promise has settled).\<close>

fun step :: "config \<Rightarrow> event \<Rightarrow> world \<Rightarrow> world option" where
  "step cfg (Fire h) w =
     (if h \<in> set (timers w) then Some (w\<lparr>ticks := ticks w + 1\<rparr>) else None)"
| "step cfg (TickFindOne r) w =
     (if ticks w > 0 then Some (executeConcurrently cfg r (w\<lparr>ticks := ticks w - 1\<rparr>)) else None)"
| "step cfg (Settle p out) w =
     (if p \<in> set (unsettled w) then Some (settle cfg p out w) else None)"
| "step cfg StopCall w =
     (case stop_begin cfg w of
        (w1, None) \<Rightarrow> Some (w1\<lparr>history := history w1 @ [StopResolved]\<rparr>)
      | (w1, Some ps) \<Rightarrow> Some (w1\<lparr>stops := stops w1 @ [ps]\<rparr>))"
| "step cfg (StopReturn k) w =
     (if k < length (stops w) \<and> all_settled (stops w ! k) w
      then Some (w\<lparr>stops := drop_nth k (stops w), history := history w @ [StopResolved]\<rparr>)
      else None)"
| "step cfg StartCall w =
     (case stop_begin cfg w of
        (w1, r) \<Rightarrow>
          Some (w1\<lparr>starts := starts w1 @ [AwaitStop (case r of None \<Rightarrow> [] | Some ps \<Rightarrow> ps)],
                   history := history w1 @ [StartCalled]\<rparr>))"
| "step cfg (StartStopDone k) w =
     (if k < length (starts w)
      then (case starts w ! k of
              AwaitStop ps \<Rightarrow>
                if all_settled ps w then Some (w\<lparr>starts := (starts w)[k := AwaitFindOne]\<rparr>)
                else None
            | AwaitFindOne \<Rightarrow> None)
      else None)"
| "step cfg (StartFindOne k r now) w =
     (if k < length (starts w) \<and> starts w ! k = AwaitFindOne
      then (case start_resume cfg r now (w\<lparr>starts := drop_nth k (starts w)\<rparr>) of
              (None, w1) \<Rightarrow> Some (w1\<lparr>history := history w1 @ [StartResolved]\<rparr>)
            | (Some e, w1) \<Rightarrow> Some (w1\<lparr>history := history w1 @ [StartRejected e]\<rparr>))
      else None)"
| "step cfg (ExecuteOnce r out) w = Some (snd (executeOnce cfg r out w))"
| "step cfg (GetJobDescription r) w = Some (snd (getJobDescription cfg r w))"

fun run :: "config \<Rightarrow> event list \<Rightarrow> world \<Rightarrow> world option" where
  "run cfg [] w = Some w"
| "run cfg (e # es) w = (case step cfg e w of None \<Rightarrow> None | Some w' \<Rightarrow> run cfg es w')"

text \<open>
  The runs of a caller that awaits each \<^verbatim>\<open>start()\<close> before it calls \<^verbatim>\<open>start()\<close>
  again: a \<open>StartCall\<close> happens only when no earlier \<^verbatim>\<open>start()\<close> is in flight.
\<close>

definition step_awaited :: "config \<Rightarrow> event \<Rightarrow> world \<Rightarrow> world option" where
  "step_awaited cfg e w = (if e = StartCall \<and> starts w \<noteq> [] then None else step cfg e w)"

fun run_awaited :: "config \<Rightarrow> event list \<Rightarrow> world \<Rightarrow> world option" where
  "run_awaited cfg [] w = Some w"
| "run_awaited cfg (e # es) w =
     (case step_awaited cfg e w of None \<Rightarrow> None | Some w' \<Rightarrow> run_awaited cfg es w')"

text \<open>
  The timers that are armed are the one the scheduler holds a handle of, if it holds
  one; while a \<^verbatim>\<open>start()\<close> is in flight there is none.
\<close>

definition one_timer :: "world \<Rightarrow> bool" where
  "one_timer w =
     (case starts w of
        [] \<Rightarrow> timers w = (case jobHandle w of None \<Rightarrow> [] | Some h \<Rightarrow> [h])
      | [ph] \<Rightarrow> jobHandle w = None \<and> timers w = []
      | _ \<Rightarrow> False)"

text \<open>
  The number of errors that an event hands to \<^verbatim>\<open>handleUnexpectedError\<close>: a rejected
  \<^verbatim>\<open>findOne\<close> in a tick or in \<^verbatim>\<open>executeOnce\<close>, and a rejected executor promise of
  a tick.
\<close>

fun handled_errors :: "event \<Rightarrow> nat" where
  "handled_errors (TickFindOne (Inl e)) = 1"
| "handled_errors (Settle p (Rejects e)) = 1"
| "handled_errors (ExecuteOnce (Inl e) out) = 1"
| "handled_errors _ = 0"

section \<open>Connecting to the database\<close>

text \<open>
  What \<^verbatim>\<open>connect\<close>, \<^verbatim>\<open>disconnect\<close> and \<^verbatim>\<open>MongoSchedule\<close> act on: the connections
  that the connection manager holds by name, the collection indices and the schedule
  entries of the executions repository in the database, the schedule pings that are
  running, the logger's debug messages, and the calls made to the outside, in order.
\<close>

record Connection =
  url :: string
  connected :: bool

datatype call =
    Uuid
  | CreateConnection string
  | CreateCollectionIndex string
  | AddSchedule string
  | PingStart string
  | Cancel
  | PingStop string
  | Close string

record process =
  connections :: "string \<rightharpoonup> Connection"
  indices :: "string list"
  executions :: "string list"
  pings :: "string list"
  messages :: "string list"
  trace :: "call list"

text \<open>Whether a call to the outside rejects, and with what.\<close>

type_synonym outcomes = "call \<Rightarrow> error option"

definition connectionName :: string where
  "connectionName = ''momo''"

text \<open>\<^verbatim>\<open>getConnection\<close> of the connection manager throws when it holds no connection of
  that name.\<close>

definition getConnection :: "string \<Rightarrow> process \<Rightarrow> error + Connection" where
  "getConnection n w =
     (case connections w n of
        None \<Rightarrow> Inl (other ''ConnectionNotFoundError'')
      | Some c \<Rightarrow> Inr c)"

text \<open>\<^verbatim>\<open>logger?.debug(m)\<close>: nothing without a logger.\<close>

definition debug :: "bool \<Rightarrow> string \<Rightarrow> process \<Rightarrow> process" where
  "debug logger m w = (if logger then w\<lparr>messages := messages w @ [m]\<rparr> else w)"

definition called :: "call \<Rightarrow> process \<Rightarrow> process" where
  "called c w = w\<lparr>trace := trace w @ [c]\<rparr>"

text \<open>
  \<^verbatim>\<open>connect\<close>. The function \<^verbatim>\<open>isConnected\<close> that it imports is not among the sources
  and is a parameter here.
\<close>

definition connect ::
  "(process \<Rightarrow> bool) \<Rightarrow> outcomes \<Rightarrow> string \<Rightarrow> bool \<Rightarrow> process \<Rightarrow> (error + Connection) \<times> process" where
  "connect isConnected env u logger w =
     (if isConnected w then (getConnection connectionName w, w)
      else
        let w1 = called (CreateConnection u) (debug logger ''connect to database'' w) in
        case env (CreateConnection u) of
          Some e \<Rightarrow> (Inl e, w1)
        | None \<Rightarrow>
            let c = \<lparr>url = u, connected = True\<rparr>;
                w2 = w1\<lparr>connections := (connections w1)(connectionName \<mapsto> c)\<rparr>;
                w3 = called (CreateCollectionIndex ''job_name_index'')
                       (debug logger ''create indices'' w2)
            in case env (CreateCollectionIndex ''job_name_index'') of
                 Some e \<Rightarrow> (Inl e, w3)
               | None \<Rightarrow>
                   let w4 = called (CreateCollectionIndex ''schedule_id_index'')
                              (w3\<lparr>indices := indices w3 @ [''job_name_index'']\<rparr>)
                   in case env (CreateCollectionIndex ''schedule_id_index'') of
                        Some e \<Rightarrow> (Inl e, w4)
                      | None \<Rightarrow>
                          (Inr c, w4\<lparr>indices := indices w4 @ [''schedule_id_index'']\<rparr>))"

text \<open>\<^verbatim>\<open>disconnect\<close>: the connection named \<open>momo\<close> is closed; it stays with the
  connection manager.\<close>

definition disconnect :: "outcomes \<Rightarrow> process \<Rightarrow> error option \<times> process" where
  "disconnect env w =
     (case getConnection connectionName w of
        Inl e \<Rightarrow> (Some e, w)
      | Inr c \<Rightarrow>
          let w1 = called (Close connectionName) w in
          case env (Close connectionName) of
            Some e \<Rightarrow> (Some e, w1)
          | None \<Rightarrow>
              (None, w1\<lparr>connections := (connections w1)(connectionName \<mapsto> c\<lparr>connected := False\<rparr>)\<rparr>))"

text \<open>A \<^verbatim>\<open>MongoSchedule\<close>: its id and the job schedulers that its base class
  \<^verbatim>\<open>Schedule\<close> holds, by job name.\<close>

record MongoSchedule =
  scheduleId :: string
  jobSchedulers :: "string list"

text \<open>
  Modelled from the spec: \<^verbatim>\<open>ExecutionsRepository.addSchedule\<close> is not among the sources;
  by section 3 a ScheduleEntry is created on connect.
\<close>

definition addSchedule :: "string \<Rightarrow> process \<Rightarrow> process" where
  "addSchedule i w = w\<lparr>executions := executions w @ [i]\<rparr>"

text \<open>
  Modelled from the spec: \<^verbatim>\<open>SchedulePing\<close> is not among the sources; by the state
  machine of section 4.6 \<^verbatim>\<open>start()\<close> arms its timer and \<^verbatim>\<open>stop()\<close> deletes the
  schedule's own entry and cancels the timer.
\<close>

definition SchedulePing_start :: "string \<Rightarrow> process \<Rightarrow> process" where
  "SchedulePing_start i w = w\<lparr>pings := pings w @ [i]\<rparr>"

definition SchedulePing_stop :: "string \<Rightarrow> process \<Rightarrow> process" where
  "SchedulePing_stop i w =
     w\<lparr>executions := removeAll i (executions w), pings := removeAll i (pings w)\<rparr>"

text \<open>
  Modelled from the spec: \<^verbatim>\<open>Schedule.cancel\<close> is not among the sources; by section 4.5
  it stops the job schedulers and removes them from the local set.
\<close>

definition cancel :: "MongoSchedule \<Rightarrow> MongoSchedule" where
  "cancel ms = ms\<lparr>jobSchedulers := []\<rparr>"

text \<open>\<^verbatim>\<open>MongoSchedule.connect\<close>; \<open>i\<close> is the value that \<^verbatim>\<open>uuid()\<close> returns in this
  call. The ping's \<^verbatim>\<open>start()\<close> is not awaited.\<close>

definition MongoSchedule_connect ::
  "(process \<Rightarrow> bool) \<Rightarrow> outcomes \<Rightarrow> string \<Rightarrow> string \<Rightarrow> process \<Rightarrow> (error + MongoSchedule) \<times> process" where
  "MongoSchedule_connect isConnected env i u w =
     (let mongoSchedule = \<lparr>scheduleId = i, jobSchedulers = []\<rparr> in
      case connect isConnected env u True (called Uuid w) of
        (Inl e, w1) \<Rightarrow> (Inl e, w1)
      | (Inr c, w1) \<Rightarrow>
          let w2 = called (AddSchedule i) w1 in
          case env (AddSchedule i) of
            Some e \<Rightarrow> (Inl e, w2)
          | None \<Rightarrow>
              (Inr mongoSchedule,
               SchedulePing_start i (called (PingStart i) (addSchedule i w2))))"

text \<open>\<^verbatim>\<open>MongoSchedule.disconnect\<close>: three awaited calls, each of which may reject.\<close>

definition MongoSchedule_disconnect ::
  "outcomes \<Rightarrow> MongoSchedule \<Rightarrow> process \<Rightarrow> error option \<times> MongoSchedule \<times> process" where
  "MongoSchedule_disconnect env ms w =
     (let w1 = called Cancel w in
      case env Cancel of
        Some e \<Rightarrow> (Some e, ms, w1)
      | None \<Rightarrow>
          let ms1 = cancel ms;
              w2 = called (PingStop (scheduleId ms1)) w1
          in case env (PingStop (scheduleId ms1)) of
               Some e \<Rightarrow> (Some e, ms1, w2)
             | None \<Rightarrow>
                 (case disconnect env (SchedulePing_stop (scheduleId ms1) w2) of
                    (r, w3) \<Rightarrow> (r, ms1, w3)))"

section \<open>The schedule ping\<close>

text \<open>
  Modelled from the spec: \<^verbatim>\<open>SchedulePing\<close> is not among the sources, only its test is.
  Section 4.6 gives one tick of its loop: ask the ledger whether this schedule is the
  active one of its name, start all jobs when it has just become active, write the
  heartbeat, delete the entries of the same name that are older than twice the ping
  interval; a store error in any of these is caught and logged, and the loop goes on.
  The test has the logged error: the message, the type \<open>internal\<close>
  (\<^verbatim>\<open>'an internal error occurred'\<close>), no data, and the error itself.
\<close>

record ScheduleEntry =
  entry_scheduleId :: string
  entry_name :: string
  lastAlive :: int

record ping_state =
  ledger :: "ScheduleEntry list"
  wasActive :: bool
  startAllJobsCalls :: nat
  pingTimer :: bool
  pingLogs :: "log_entry list"

text \<open>What the store answers during one tick, and the time.\<close>

record ping_env =
  isActiveSchedule :: "error + bool"
  pingFails :: "error option"
  cleanFails :: "error option"
  clock :: int

definition heartbeat :: "string \<Rightarrow> int \<Rightarrow> ScheduleEntry list \<Rightarrow> ScheduleEntry list" where
  "heartbeat i now es = map (\<lambda>e. if entry_scheduleId e = i then e\<lparr>lastAlive := now\<rparr> else e) es"

definition deleteDead :: "string \<Rightarrow> int \<Rightarrow> ScheduleEntry list \<Rightarrow> ScheduleEntry list" where
  "deleteDead n olderThan es = filter (\<lambda>e. \<not> (entry_name e = n \<and> lastAlive e < olderThan)) es"

text \<open>Steps 1 to 4; \<open>Inl\<close> is a store error thrown on the way, with the state reached.\<close>

definition SchedulePing_try ::
  "string \<Rightarrow> string \<Rightarrow> int \<Rightarrow> ping_env \<Rightarrow> ping_state \<Rightarrow> (error \<times> ping_state) + ping_state" where
  "SchedulePing_try i n pingInterval env s =
     (case isActiveSchedule env of
        Inl e \<Rightarrow> Inl (e, s)
      | Inr active \<Rightarrow>
          let s1 = (if active \<and> \<not> wasActive s
                    then s\<lparr>startAllJobsCalls := startAllJobsCalls s + 1\<rparr> else s)
                     \<lparr>wasActive := active\<rparr>
          in case pingFails env of
               Some e \<Rightarrow> Inl (e, s1)
             | None \<Rightarrow>
                 let s2 = s1\<lparr>ledger := heartbeat i (clock env) (ledger s1)\<rparr> in
                 case cleanFails env of
                   Some e \<Rightarrow> Inl (e, s2)
                 | None \<Rightarrow>
                     Inr (s2\<lparr>ledger :=
                            deleteDead n (clock env - 2 * pingInterval) (ledger s2)\<rparr>))"

text \<open>One tick: the steps inside \<^verbatim>\<open>try\<close>, and the \<^verbatim>\<open>catch\<close> that logs. The first
  component is the error that escapes the tick, if any.\<close>

definition SchedulePing_tick ::
  "string \<Rightarrow> string \<Rightarrow> int \<Rightarrow> ping_env \<Rightarrow> ping_state \<Rightarrow> error option \<times> ping_state" where
  "SchedulePing_tick i n pingInterval env s =
     (case SchedulePing_try i n pingInterval env s of
        Inl (e, s1) \<Rightarrow>
          (None, s1\<lparr>pingLogs := pingLogs s1 @
             [LogError ''Pinging or cleaning the Schedules repository failed'' internal [] e]\<rparr>)
      | Inr s1 \<Rightarrow> (None, s1))"

section \<open>A concrete job, scheduler and state\<close>

definition example_config :: config where
  "example_config =
     \<lparr>jobName = ''job'', immediate = True,
      humanInterval = (\<lambda>s. if s = ''one minute'' then Num 60000 else Undefined)\<rparr>"

definition example_job :: JobEntity where
  "example_job =
     \<lparr>name = ''job'', interval = ''one minute'', concurrency = 5, maxRunning = 2,
      running = Some 1, lastFinished = None\<rparr>"

definition initial_world :: world where
  "initial_world =
     \<lparr>jobHandle = None, unexpectedErrorCount = 0, this_interval = None,
      pendingExecutions = [], timers = [], unsettled = [], ticks = 0, stops = [],
      starts = [], logs = [], history = [], fresh = 0\<rparr>"

definition empty_process :: process where
  "empty_process =
     \<lparr>connections = Map.empty, indices = [], executions = [], pings = [], messages = [],
      trace = []\<rparr>"

definition momo_exists :: "process \<Rightarrow> bool" where
  "momo_exists w = (connections w connectionName \<noteq> None)"

definition connected_process :: process where
  "connected_process =
     \<lparr>connections = [connectionName \<mapsto> \<lparr>url = ''mongodb://localhost'', connected = True\<rparr>],
      indices = [''job_name_index'', ''schedule_id_index''], executions = [], pings = [],
      messages = [''connect to database'', ''create indices''],
      trace = [CreateConnection ''mongodb://localhost'',
               CreateCollectionIndex ''job_name_index'',
               CreateCollectionIndex ''schedule_id_index'']\<rparr>"

definition all_succeed :: outcomes where
  "all_succeed = (\<lambda>c. None)"

definition scheduled_process :: process where
  "scheduled_process =
     connected_process
       \<lparr>executions := [''id-1''], pings := [''id-1''],
        trace := Uuid # trace connected_process @ [AddSchedule ''id-1'', PingStart ''id-1'']\<rparr>"

definition example_ping_state :: ping_state where
  "example_ping_state =
     \<lparr>ledger = [\<lparr>entry_scheduleId = ''123'', entry_name = ''schedule'', lastAlive = 0\<rparr>],
      wasActive = False, startAllJobsCalls = 0, pingTimer = True, pingLogs = []\<rparr>"

definition failing_ping_env :: ping_env where
  "failing_ping_env =
     \<lparr>isActiveSchedule = Inr True,
      pingFails = Some (other ''I am an error that should be caught''),
      cleanFails = None, clock = 1000\<rparr>"

section \<open>Properties\<close>

lemma launched_launch: "launched (launch w) = Suc (launched w)"
  by (simp add: launched_def launch_def)

lemma launched_launch_loop: "launched (launch_loop i n w) = launched w + nat (n - i)"
proof (induction i n w rule: launch_loop.induct)
  case (1 i n w)
  show ?case
  proof (cases "i < n")
    case True
    have "launched (launch_loop i n w) = launched (launch_loop (i + 1) n (launch w))"
      using True by (subst launch_loop.simps) simp
    also have "\<dots> = launched (launch w) + nat (n - (i + 1))"
      using "1.IH" True by simp
    also have "\<dots> = launched w + nat (n - i)"
      using True by (simp add: launched_launch nat_diff_distrib)
    finally show ?thesis .
  next
    case False
    then show ?thesis by (subst launch_loop.simps) simp
  qed
qed

lemma launched_logs: "launched (w\<lparr>logs := l\<rparr>) = launched w"
  by (simp add: launched_def)

text \<open>
  C1. A tick of \<^verbatim>\<open>executeConcurrently\<close> that finds the job definition starts as many
  executor invocations as the claim's number says (none when that number is negative):
  \<open>concurrency\<close> when \<open>maxRunning \<le> 0\<close>, and otherwise
  \<open>min concurrency (max 0 (maxRunning - running))\<close>, where an undefined \<open>running\<close>
  counts as 0. So for a concurrency that is not negative, as the data model has it, the
  number of invocations started is exactly that number; and it is zero when
  \<open>running \<ge> maxRunning\<close>.
\<close>

theorem executeConcurrently_launches:
  "launched (executeConcurrently cfg (Inr (Some j)) w) =
     launched w +
     nat (if maxRunning j \<le> 0 then concurrency j
          else min (concurrency j)
                 (max 0 (maxRunning j - (case running j of None \<Rightarrow> 0 | Some r \<Rightarrow> r))))
   \<and> (0 \<le> concurrency j \<longrightarrow>
        int (launched (executeConcurrently cfg (Inr (Some j)) w)) - int (launched w) =
          (if maxRunning j \<le> 0 then concurrency j
           else min (concurrency j)
                  (max 0 (maxRunning j - (case running j of None \<Rightarrow> 0 | Some r \<Rightarrow> r)))))
   \<and> (0 < maxRunning j \<and> maxRunning j \<le> (case running j of None \<Rightarrow> 0 | Some r \<Rightarrow> r)
        \<longrightarrow> launched (executeConcurrently cfg (Inr (Some j)) w) = launched w)"
proof -
  have "launched (executeConcurrently cfg (Inr (Some j)) w) = launched w + nat (numToExecute j)"
    by (simp add: executeConcurrently_def executeConcurrently_try_def launched_launch_loop
        launched_logs)
  then show ?thesis
    by (auto simp: numToExecute_def split: option.splits)
qed

theorem executeConcurrently_launches_witness:
  "0 \<le> concurrency example_job
   \<and> int (launched (executeConcurrently example_config (Inr (Some example_job)) initial_world))
         - int (launched initial_world) = 1
   \<and> launched (executeConcurrently example_config
         (Inr (Some (example_job\<lparr>running := Some 3\<rparr>))) initial_world) = launched initial_world"
  using executeConcurrently_launches [of example_config example_job initial_world]
    executeConcurrently_launches [of example_config "example_job\<lparr>running := Some 3\<rparr>"
      initial_world]
  by (simp add: example_job_def initial_world_def launched_def)

subsection \<open>Evaluating runs\<close>

lemmas run_defs =
  example_config_def example_job_def initial_world_def stop_begin_def start_resume_def
  setIntervalWithDelay_def clearInterval_def calculateDelay_def executeConcurrently_def
  executeConcurrently_try_def numToExecute_def launch_loop.simps launch_def settle_def
  all_settled_def drop_nth_def handleUnexpectedError_def executeOnce_def

text \<open>
  C2. The claim is that no executor invocation is started after \<^verbatim>\<open>stop()\<close> has
  resolved (until \<^verbatim>\<open>start()\<close> is called again) and that all invocations started before
  have settled by then. In the source \<^verbatim>\<open>stop()\<close> clears the timer and awaits the
  promises that are in \<open>pendingExecutions\<close> when it is called; a tick that is suspended
  on \<^verbatim>\<open>findOne\<close> at that moment is not among them. First run: the scheduler is started,
  the timer fires, \<^verbatim>\<open>stop()\<close> is called and resolves at once (nothing is pending), then
  the tick resumes and starts executor invocation 1, after \<^verbatim>\<open>stop()\<close> has resolved and
  with no \<^verbatim>\<open>start()\<close> since. Second run: \<^verbatim>\<open>stop()\<close> waits for invocation 1, a
  suspended tick starts invocation 2 meanwhile, and \<^verbatim>\<open>stop()\<close> resolves when 1 has
  settled, while 2 has not.
\<close>

theorem stop_misses_tick_in_flight:
  "map_option history
     (run example_config
        [StartCall, StartStopDone 0, StartFindOne 0 (Inr (Some example_job)) 0,
         Fire 0, StopCall, TickFindOne (Inr (Some example_job))]
        initial_world)
   = Some [StartCalled, StartResolved, StopResolved, Invoked 1]
   \<and> map_option (\<lambda>w. (history w, unsettled w))
     (run example_config
        [StartCall, StartStopDone 0, StartFindOne 0 (Inr (Some example_job)) 0,
         Fire 0, TickFindOne (Inr (Some example_job)), Fire 0, StopCall,
         TickFindOne (Inr (Some example_job)), Settle 1 (Resolves \<lparr>status = finished\<rparr>),
         StopReturn 0]
        initial_world)
   = Some ([StartCalled, StartResolved, Invoked 1, Invoked 2, Settled 1, StopResolved], [2])"
  by (simp add: run_defs)

subsection \<open>The timers of a scheduler\<close>

lemma stop_begin_fields:
  "starts (fst (stop_begin cfg w)) = starts w"
  "jobHandle (fst (stop_begin cfg w)) = None"
  "timers (fst (stop_begin cfg w)) =
     (case jobHandle w of None \<Rightarrow> timers w | Some h \<Rightarrow> removeAll h (timers w))"
  by (simp_all add: stop_begin_def clearInterval_def Let_def split: option.splits)

lemma launch_loop_frame:
  "jobHandle (launch_loop i n w) = jobHandle w \<and> timers (launch_loop i n w) = timers w
   \<and> starts (launch_loop i n w) = starts w
   \<and> unexpectedErrorCount (launch_loop i n w) = unexpectedErrorCount w"
proof (induction i n w rule: launch_loop.induct)
  case (1 i n w)
  show ?case
  proof (cases "i < n")
    case True
    then show ?thesis
      using "1.IH" by (subst (1 2 3 4) launch_loop.simps) (simp add: launch_def)
  next
    case False
    then show ?thesis by (subst (1 2 3 4) launch_loop.simps) simp
  qed
qed

lemma executeConcurrently_frame:
  "jobHandle (executeConcurrently cfg r w) = jobHandle w"
  "timers (executeConcurrently cfg r w) = timers w"
  "starts (executeConcurrently cfg r w) = starts w"
  by (simp_all add: executeConcurrently_def executeConcurrently_try_def handleUnexpectedError_def
      launch_loop_frame split: sum.splits option.splits)

lemma settle_frame:
  "jobHandle (settle cfg p out w) = jobHandle w"
  "timers (settle cfg p out w) = timers w"
  "starts (settle cfg p out w) = starts w"
  by (simp_all add: settle_def handleUnexpectedError_def Let_def split: exec_outcome.splits)

lemma executeOnce_frame:
  "jobHandle (snd (executeOnce cfg r out w)) = jobHandle w"
  "timers (snd (executeOnce cfg r out w)) = timers w"
  "starts (snd (executeOnce cfg r out w)) = starts w"
  by (simp_all add: executeOnce_def handleUnexpectedError_def
      split: sum.splits option.splits exec_outcome.splits)

lemma getJobDescription_frame:
  "jobHandle (snd (getJobDescription cfg r w)) = jobHandle w"
  "timers (snd (getJobDescription cfg r w)) = timers w"
  "starts (snd (getJobDescription cfg r w)) = starts w"
  by (simp_all add: getJobDescription_def split: sum.splits option.splits)

lemma start_resume_one_timer:
  assumes "starts w = []" "jobHandle w = None" "timers w = []"
    and "start_resume cfg r now w = (x, w')"
  shows "starts w' = [] \<and> timers w' = (case jobHandle w' of None \<Rightarrow> [] | Some h \<Rightarrow> [h])"
  using assms
  by (auto simp: start_resume_def setIntervalWithDelay_def Let_def
      split: sum.splits option.splits js_number.splits if_splits)

lemma one_timer_frame:
  "starts w' = starts w \<Longrightarrow> timers w' = timers w \<Longrightarrow> jobHandle w' = jobHandle w \<Longrightarrow>
   one_timer w' = one_timer w"
  by (simp add: one_timer_def split: list.splits)

lemma one_timer_stop_begin:
  assumes "one_timer w" and "stop_begin cfg w = (w1, r)"
  shows "one_timer w1" and "jobHandle w1 = None" and "starts w1 = starts w"
    and "starts w = [] \<Longrightarrow> timers w1 = []"
proof -
  have f: "starts w1 = starts w" "jobHandle w1 = None"
    "timers w1 = (case jobHandle w of None \<Rightarrow> timers w | Some h \<Rightarrow> removeAll h (timers w))"
    using stop_begin_fields [of cfg w] assms(2) by simp_all
  show "jobHandle w1 = None" "starts w1 = starts w" using f by simp_all
  show "one_timer w1" using assms(1) f
    by (auto simp: one_timer_def split: list.splits option.splits)
  show "starts w = [] \<Longrightarrow> timers w1 = []" using assms(1) f
    by (auto simp: one_timer_def split: list.splits option.splits)
qed

lemma one_timer_step:
  assumes "one_timer w" and "step_awaited cfg e w = Some w'"
  shows "one_timer w'"
proof (cases e)
  case (Fire h)
  then have "w' = w\<lparr>ticks := ticks w + 1\<rparr>" using assms(2)
    by (auto simp: step_awaited_def split: if_splits)
  then show ?thesis using assms(1) one_timer_frame [of w' w] by simp
next
  case (TickFindOne r)
  then have "w' = executeConcurrently cfg r (w\<lparr>ticks := ticks w - 1\<rparr>)" using assms(2)
    by (auto simp: step_awaited_def split: if_splits)
  then show ?thesis using assms(1) one_timer_frame [of w' w]
    by (simp add: executeConcurrently_frame)
next
  case (Settle p out)
  then have "w' = settle cfg p out w" using assms(2)
    by (auto simp: step_awaited_def split: if_splits)
  then show ?thesis using assms(1) one_timer_frame [of w' w] by (simp add: settle_frame)
next
  case StopCall
  obtain w1 r where sb: "stop_begin cfg w = (w1, r)" by (cases "stop_begin cfg w")
  note f = one_timer_stop_begin [OF assms(1) sb]
  have "starts w' = starts w1 \<and> timers w' = timers w1 \<and> jobHandle w' = jobHandle w1"
    using assms(2) StopCall sb by (auto simp: step_awaited_def split: option.splits)
  then show ?thesis using f(1) one_timer_frame [of w' w1] by simp
next
  case (StopReturn k)
  then have "w' = w\<lparr>stops := drop_nth k (stops w), history := history w @ [StopResolved]\<rparr>"
    using assms(2) by (auto simp: step_awaited_def split: if_splits)
  then show ?thesis using assms(1) one_timer_frame [of w' w] by simp
next
  case StartCall
  obtain w1 r where sb: "stop_begin cfg w = (w1, r)" by (cases "stop_begin cfg w")
  have e: "starts w = []" using assms(2) StartCall by (auto simp: step_awaited_def split: if_splits)
  note f = one_timer_stop_begin [OF assms(1) sb]
  have "\<exists>ph. starts w' = [ph]" "timers w' = timers w1" "jobHandle w' = jobHandle w1"
    using assms(2) StartCall sb e f(3) by (auto simp: step_awaited_def)
  then show ?thesis using f(2) f(4) [OF e] by (auto simp: one_timer_def)
next
  case (StartStopDone k)
  then have "\<exists>ps. k < length (starts w) \<and> w' = w\<lparr>starts := (starts w)[k := AwaitFindOne]\<rparr>"
    using assms(2) by (auto simp: step_awaited_def split: if_splits start_phase.splits)
  then show ?thesis using assms(1)
    by (auto simp: one_timer_def split: list.splits)
next
  case (StartFindOne k r now)
  from assms StartFindOne have k: "k < length (starts w)" "starts w ! k = AwaitFindOne"
    by (auto simp: step_awaited_def split: if_splits)
  with assms(1) have s: "starts w = [AwaitFindOne]" "k = 0" "jobHandle w = None" "timers w = []"
    by (auto simp: one_timer_def split: list.splits)
  obtain x w1 where sr: "start_resume cfg r now (w\<lparr>starts := drop_nth k (starts w)\<rparr>) = (x, w1)"
    by (cases "start_resume cfg r now (w\<lparr>starts := drop_nth k (starts w)\<rparr>)")
  have o: "starts w1 = [] \<and> timers w1 = (case jobHandle w1 of None \<Rightarrow> [] | Some h \<Rightarrow> [h])"
    using start_resume_one_timer [OF _ _ _ sr] s by (simp add: drop_nth_def)
  then have "one_timer w1" by (simp add: one_timer_def)
  moreover have "starts w' = starts w1 \<and> timers w' = timers w1 \<and> jobHandle w' = jobHandle w1"
    using assms(2) StartFindOne k sr by (auto simp: step_awaited_def split: option.splits)
  ultimately show ?thesis using one_timer_frame [of w' w1] by simp
next
  case (ExecuteOnce r out)
  then have "w' = snd (executeOnce cfg r out w)" using assms(2)
    by (auto simp: step_awaited_def)
  then show ?thesis using assms(1) one_timer_frame [of w' w] by (simp add: executeOnce_frame)
next
  case (GetJobDescription r)
  then have "w' = snd (getJobDescription cfg r w)" using assms(2)
    by (auto simp: step_awaited_def)
  then show ?thesis using assms(1) one_timer_frame [of w' w]
    by (simp add: getJobDescription_frame)
qed

lemma one_timer_run:
  "one_timer w \<Longrightarrow> run_awaited cfg tr w = Some w' \<Longrightarrow> one_timer w'"
proof (induction tr arbitrary: w)
  case Nil
  then show ?case by simp
next
  case (Cons e es)
  then show ?case
    by (auto split: option.splits dest: one_timer_step)
qed

lemma one_timer_bound:
  "one_timer w \<Longrightarrow> length (timers w) \<le> 1 \<and> (isStarted w \<longrightarrow> length (timers w) = 1)"
  by (auto simp: one_timer_def isStarted_def split: list.splits option.splits)

text \<open>
  C3. The claim is that a scheduler has at most one active timer at all times, and that
  two calls of \<^verbatim>\<open>start()\<close> without a \<^verbatim>\<open>stop()\<close> between leave exactly one. In the
  source \<^verbatim>\<open>start()\<close> clears the timer of its handle and then suspends twice, on
  \<^verbatim>\<open>stop()\<close> and on \<^verbatim>\<open>findOne\<close>, before it arms the new timer. First run: two calls
  of \<^verbatim>\<open>start()\<close> overlap (the second is made before the first has returned); both pass
  their \<^verbatim>\<open>stop()\<close> while no handle is set and both arm a timer, so timers 0 and 1 are
  active and the handle of timer 0 is lost. Second run: \<^verbatim>\<open>stop()\<close>, called twice after
  that, clears timer 1 only; timer 0 stays armed, fires, and its tick starts executor
  invocation 2 after \<^verbatim>\<open>stop()\<close> has resolved.
\<close>

theorem overlapping_starts_two_timers:
  "map_option (\<lambda>w. (timers w, jobHandle w))
     (run example_config
        [StartCall, StartCall, StartStopDone 0, StartStopDone 1,
         StartFindOne 0 (Inr (Some example_job)) 0, StartFindOne 0 (Inr (Some example_job)) 0]
        initial_world)
   = Some ([0, 1], Some 1)
   \<and> map_option (\<lambda>w. (timers w, jobHandle w, history w))
     (run example_config
        [StartCall, StartCall, StartStopDone 0, StartStopDone 1,
         StartFindOne 0 (Inr (Some example_job)) 0, StartFindOne 0 (Inr (Some example_job)) 0,
         StopCall, StopCall, Fire 0, TickFindOne (Inr (Some example_job))]
        initial_world)
   = Some ([0], None,
           [StartCalled, StartCalled, StartResolved, StartResolved, StopResolved,
            StopResolved, Invoked 2])"
  by (simp add: run_defs)

text \<open>
  What holds of the timers when no call of \<^verbatim>\<open>start()\<close> is made while an earlier one
  is in flight: every state that the scheduler reaches has at most one active timer, and
  exactly one whenever the scheduler is started (it holds a handle). A \<^verbatim>\<open>start()\<close>
  that finds no job, or an interval that does not parse, leaves none.
\<close>

theorem start_keeps_one_timer:
  assumes "one_timer w" and "run_awaited cfg tr w = Some w'"
  shows "length (timers w') \<le> 1 \<and> (isStarted w' \<longrightarrow> length (timers w') = 1) \<and> one_timer w'"
  using one_timer_run [OF assms] one_timer_bound by blast

theorem start_keeps_one_timer_witness:
  "one_timer initial_world
   \<and> (\<exists>w'. run_awaited example_config
              [StartCall, StartStopDone 0, StartFindOne 0 (Inr (Some example_job)) 0,
               StartCall, StartStopDone 0, StartFindOne 0 (Inr (Some example_job)) 5]
              initial_world = Some w'
         \<and> isStarted w' \<and> timers w' = [1] \<and> length (timers w') = 1 \<and> one_timer w')"
proof -
  have i: "one_timer initial_world"
    by (simp add: one_timer_def initial_world_def)
  have "\<exists>w'. run_awaited example_config
              [StartCall, StartStopDone 0, StartFindOne 0 (Inr (Some example_job)) 0,
               StartCall, StartStopDone 0, StartFindOne 0 (Inr (Some example_job)) 5]
              initial_world = Some w' \<and> isStarted w' \<and> timers w' = [1]"
    by (simp add: run_defs step_awaited_def isStarted_def)
  then obtain w' where r: "run_awaited example_config
              [StartCall, StartStopDone 0, StartFindOne 0 (Inr (Some example_job)) 0,
               StartCall, StartStopDone 0, StartFindOne 0 (Inr (Some example_job)) 5]
              initial_world = Some w'" and s: "isStarted w'" "timers w' = [1]"
    by blast
  from start_keeps_one_timer [OF i r] s i r show ?thesis by simp
qed

subsection \<open>Failures of start\<close>

text \<open>
  C4, as the source has it. \<^verbatim>\<open>start()\<close> awaits \<^verbatim>\<open>findOne\<close> outside any \<^verbatim>\<open>try\<close>: when
  the store rejects, that error escapes \<^verbatim>\<open>start()\<close>. It is neither of the two failures
  of the claim.
\<close>

theorem start_store_error_escapes:
  "map_option (\<lambda>w. (history w, timers w))
     (run example_config
        [StartCall, StartStopDone 0, StartFindOne 0 (Inl (other ''connection lost'')) 0]
        initial_world)
   = Some ([StartCalled, StartRejected (other ''connection lost'')], [])
   \<and> other ''connection lost'' \<noteq> nonParsableInterval"
  by (simp add: run_defs)

text \<open>
  C4, amended. \<^verbatim>\<open>start()\<close>, once its \<^verbatim>\<open>stop()\<close> is through, has three failures, and
  arms no timer in any of them: \<^verbatim>\<open>findOne\<close> rejects and the error escapes; the
  definition is absent, which is logged as \<open>jobNotFound\<close> and the call returns
  normally; the definition is there and its interval does not parse to a positive
  number, and \<open>nonParsableInterval\<close> is thrown. When the interval parses to a positive
  number, the call arms one timer, keeps its handle and returns normally. The
  \<^verbatim>\<open>stop()\<close> at its beginning arms nothing. Nothing is said here of an interval for
  which the parser gives a negative number.
\<close>

theorem start_failure_modes:
  "(\<forall>e. r = Inl e \<longrightarrow> start_resume cfg r now w = (Some e, w))
   \<and> (r = Inr None \<longrightarrow>
        start_resume cfg r now w =
          (None, w\<lparr>logs := logs w @
             [LogError ''cannot schedule job'' scheduleJob (jobName cfg) jobNotFound]\<rparr>))
   \<and> (\<forall>j. r = Inr (Some j)
          \<and> \<not> (\<exists>ms. humanInterval cfg (interval j) = Num ms \<and> 0 < ms)
          \<and> \<not> (\<exists>ms. humanInterval cfg (interval j) = Num ms \<and> ms < 0) \<longrightarrow>
        start_resume cfg r now w = (Some nonParsableInterval, w))
   \<and> (\<forall>j ms. r = Inr (Some j) \<and> humanInterval cfg (interval j) = Num ms \<and> 0 < ms \<longrightarrow>
        fst (start_resume cfg r now w) = None
        \<and> timers (snd (start_resume cfg r now w)) = timers w @ [fresh w]
        \<and> jobHandle (snd (start_resume cfg r now w)) = Some (fresh w))
   \<and> length (timers (fst (stop_begin cfg w))) \<le> length (timers w)"
proof (intro conjI allI impI)
  fix e assume "r = Inl e"
  then show "start_resume cfg r now w = (Some e, w)"
    by (simp add: start_resume_def)
next
  assume "r = Inr None"
  then show "start_resume cfg r now w =
          (None, w\<lparr>logs := logs w @
             [LogError ''cannot schedule job'' scheduleJob (jobName cfg) jobNotFound]\<rparr>)"
    by (simp add: start_resume_def)
next
  fix j
  assume a: "r = Inr (Some j)
          \<and> \<not> (\<exists>ms. humanInterval cfg (interval j) = Num ms \<and> 0 < ms)
          \<and> \<not> (\<exists>ms. humanInterval cfg (interval j) = Num ms \<and> ms < 0)"
  show "start_resume cfg r now w = (Some nonParsableInterval, w)"
  proof (cases "humanInterval cfg (interval j)")
    case Undefined
    with a show ?thesis by (simp add: start_resume_def)
  next
    case NaN
    with a show ?thesis by (simp add: start_resume_def)
  next
    case (Num ms)
    with a have "ms = 0" by auto
    with a Num show ?thesis by (simp add: start_resume_def)
  qed
next
  fix j ms
  assume a: "r = Inr (Some j) \<and> humanInterval cfg (interval j) = Num ms \<and> 0 < ms"
  then show "fst (start_resume cfg r now w) = None"
    and "timers (snd (start_resume cfg r now w)) = timers w @ [fresh w]"
    and "jobHandle (snd (start_resume cfg r now w)) = Some (fresh w)"
    by (simp_all add: start_resume_def setIntervalWithDelay_def Let_def)
next
  show "length (timers (fst (stop_begin cfg w))) \<le> length (timers w)"
    using stop_begin_fields(3) [of cfg w]
    by (simp split: option.splits)
qed

theorem start_failure_modes_witness:
  "start_resume example_config (Inl (other ''connection lost'')) 0 initial_world
     = (Some (other ''connection lost''), initial_world)
   \<and> start_resume example_config (Inr None) 0 initial_world
     = (None, initial_world\<lparr>logs :=
          [LogError ''cannot schedule job'' scheduleJob ''job'' jobNotFound]\<rparr>)
   \<and> humanInterval example_config (interval (example_job\<lparr>interval := ''every blue moon''\<rparr>))
       = Undefined
   \<and> start_resume example_config
       (Inr (Some (example_job\<lparr>interval := ''every blue moon''\<rparr>))) 0 initial_world
     = (Some nonParsableInterval, initial_world)
   \<and> humanInterval example_config (interval example_job) = Num 60000 \<and> (0::int) < 60000
   \<and> fst (start_resume example_config (Inr (Some example_job)) 0 initial_world) = None
   \<and> timers (snd (start_resume example_config (Inr (Some example_job)) 0 initial_world)) = [0]
   \<and> jobHandle (snd (start_resume example_config (Inr (Some example_job)) 0 initial_world))
       = Some 0"
  using
    start_failure_modes [of "Inl (other ''connection lost'')" example_config 0 initial_world]
    start_failure_modes [of "Inr None" example_config 0 initial_world]
    start_failure_modes
      [of "Inr (Some (example_job\<lparr>interval := ''every blue moon''\<rparr>))" example_config 0
        initial_world]
    start_failure_modes [of "Inr (Some example_job)" example_config 0 initial_world]
  by (simp add: example_config_def example_job_def initial_world_def)

subsection \<open>A job definition that is absent when the job is to run\<close>

text \<open>
  C5. When \<^verbatim>\<open>findOne\<close> finds no definition, \<^verbatim>\<open>executeConcurrently\<close> logs the
  \<open>jobNotFound\<close> error and does nothing else: no executor invocation is started, and
  it returns. \<^verbatim>\<open>executeOnce\<close> logs the same error and returns the result
  \<open>notFound\<close>; the executor is not invoked, whatever it would have done.
\<close>

theorem job_absent_at_execution:
  "executeConcurrently cfg (Inr None) w =
     w\<lparr>logs := logs w @
        [LogError ''job not found, skip execution'' executeJob (jobName cfg) jobNotFound]\<rparr>
   \<and> launched (executeConcurrently cfg (Inr None) w) = launched w
   \<and> executeOnce cfg (Inr None) out w =
       (Inr \<lparr>status = notFound\<rparr>,
        w\<lparr>logs := logs w @
           [LogError ''job not found, skip execution'' executeJob (jobName cfg) jobNotFound]\<rparr>)"
  by (simp add: executeConcurrently_def executeConcurrently_try_def executeOnce_def launched_def)

subsection \<open>The counter of unexpected errors\<close>

lemma launch_loop_count:
  "launch_loop i n (w\<lparr>unexpectedErrorCount := c\<rparr>) = (launch_loop i n w)\<lparr>unexpectedErrorCount := c\<rparr>"
proof (induction i n w rule: launch_loop.induct)
  case (1 i n w)
  show ?case
  proof (cases "i < n")
    case True
    have l: "launch (w\<lparr>unexpectedErrorCount := c\<rparr>) = (launch w)\<lparr>unexpectedErrorCount := c\<rparr>"
      by (simp add: launch_def)
    show ?thesis
      using "1.IH" [OF True] True l by (subst (1 2) launch_loop.simps) simp
  next
    case False
    then show ?thesis by (subst (1 2) launch_loop.simps) simp
  qed
qed

lemma count_update_out:
  "w\<lparr>unexpectedErrorCount := c, starts := s\<rparr> = w\<lparr>starts := s, unexpectedErrorCount := c\<rparr>"
  "w\<lparr>unexpectedErrorCount := c, ticks := t\<rparr> = w\<lparr>ticks := t, unexpectedErrorCount := c\<rparr>"
  "w\<lparr>unexpectedErrorCount := c, logs := l\<rparr> = w\<lparr>logs := l, unexpectedErrorCount := c\<rparr>"
  by simp_all

lemma executeConcurrently_count:
  "executeConcurrently cfg r (w\<lparr>unexpectedErrorCount := c\<rparr>) =
     (executeConcurrently cfg r w)\<lparr>unexpectedErrorCount := c + handled_errors (TickFindOne r)\<rparr>
   \<and> unexpectedErrorCount (executeConcurrently cfg r w) =
       unexpectedErrorCount w + handled_errors (TickFindOne r)"
proof (cases r)
  case (Inl e)
  then show ?thesis
    by (simp add: executeConcurrently_def executeConcurrently_try_def handleUnexpectedError_def)
next
  case (Inr opt)
  show ?thesis
  proof (cases opt)
    case None
    then show ?thesis using Inr
      by (simp add: executeConcurrently_def executeConcurrently_try_def)
  next
    case (Some j)
    let ?l = "logs w @ [LogDebug ''execute job'' [numToExecute j]]"
    let ?n = "numToExecute j"
    have u: "w\<lparr>unexpectedErrorCount := c, logs := ?l\<rparr> = w\<lparr>logs := ?l, unexpectedErrorCount := c\<rparr>"
      by simp
    have "executeConcurrently cfg r (w\<lparr>unexpectedErrorCount := c\<rparr>)
        = launch_loop 0 ?n (w\<lparr>unexpectedErrorCount := c, logs := ?l\<rparr>)"
      using Inr Some by (simp add: executeConcurrently_def executeConcurrently_try_def)
    also have "\<dots> = launch_loop 0 ?n (w\<lparr>logs := ?l, unexpectedErrorCount := c\<rparr>)"
      by (simp only: u)
    also have "\<dots> = (launch_loop 0 ?n (w\<lparr>logs := ?l\<rparr>))\<lparr>unexpectedErrorCount := c\<rparr>"
      by (rule launch_loop_count)
    finally have "executeConcurrently cfg r (w\<lparr>unexpectedErrorCount := c\<rparr>)
        = (executeConcurrently cfg r w)\<lparr>unexpectedErrorCount := c\<rparr>"
      using Inr Some by (simp add: executeConcurrently_def executeConcurrently_try_def)
    moreover have "unexpectedErrorCount (executeConcurrently cfg r w) = unexpectedErrorCount w"
      using Inr Some launch_loop_frame [of 0 ?n "w\<lparr>logs := ?l\<rparr>"]
      by (simp add: executeConcurrently_def executeConcurrently_try_def)
    ultimately show ?thesis using Inr Some by simp
  qed
qed

lemma settle_count:
  "settle cfg p out (w\<lparr>unexpectedErrorCount := c\<rparr>) =
     (settle cfg p out w)\<lparr>unexpectedErrorCount := c + handled_errors (Settle p out)\<rparr>
   \<and> unexpectedErrorCount (settle cfg p out w) =
       unexpectedErrorCount w + handled_errors (Settle p out)"
  by (cases out) (simp_all add: settle_def handleUnexpectedError_def Let_def)

lemma stop_begin_count:
  "unexpectedErrorCount (fst (stop_begin cfg w)) = unexpectedErrorCount w
   \<and> stop_begin cfg (w\<lparr>unexpectedErrorCount := c\<rparr>) =
       (fst (stop_begin cfg w)\<lparr>unexpectedErrorCount := c\<rparr>, snd (stop_begin cfg w))"
  by (simp add: stop_begin_def clearInterval_def Let_def split: option.splits)

lemma start_resume_count:
  "unexpectedErrorCount (snd (start_resume cfg r now w)) = unexpectedErrorCount w
   \<and> start_resume cfg r now (w\<lparr>unexpectedErrorCount := c\<rparr>) =
       (fst (start_resume cfg r now w), snd (start_resume cfg r now w)\<lparr>unexpectedErrorCount := c\<rparr>)"
  by (simp add: start_resume_def setIntervalWithDelay_def Let_def
      split: sum.splits option.splits js_number.splits)

lemma executeOnce_count:
  "executeOnce cfg r out (w\<lparr>unexpectedErrorCount := c\<rparr>) =
     (fst (executeOnce cfg r out w),
      snd (executeOnce cfg r out w)\<lparr>unexpectedErrorCount := c + handled_errors (ExecuteOnce r out)\<rparr>)
   \<and> unexpectedErrorCount (snd (executeOnce cfg r out w)) =
       unexpectedErrorCount w + handled_errors (ExecuteOnce r out)"
proof (cases r)
  case (Inl e)
  then show ?thesis by (simp add: executeOnce_def handleUnexpectedError_def)
next
  case (Inr opt)
  then show ?thesis
    by (cases opt; cases out) (simp_all add: executeOnce_def)
qed

text \<open>
  C6. Every event of the scheduler leaves \<open>unexpectedErrorCount\<close> where it was or adds
  one to it: exactly one for each error handed to \<^verbatim>\<open>handleUnexpectedError\<close>, of which
  an event has at most one. And nothing reads the counter: from a state that differs
  only in the counter, the same event leads to the same state (timers, handle, pending
  executions, invocations started, log), but for the counter.
\<close>

lemma getJobDescription_count:
  "getJobDescription cfg r (w\<lparr>unexpectedErrorCount := c\<rparr>) =
     (fst (getJobDescription cfg r w), snd (getJobDescription cfg r w)\<lparr>unexpectedErrorCount := c\<rparr>)
   \<and> unexpectedErrorCount (snd (getJobDescription cfg r w)) = unexpectedErrorCount w"
  by (simp add: getJobDescription_def split: sum.splits option.splits)

theorem unexpectedErrorCount_monotone_unread:
  assumes "step cfg e w = Some w'"
  shows "getUnexpectedErrorCount w \<le> getUnexpectedErrorCount w'
     \<and> getUnexpectedErrorCount w' = getUnexpectedErrorCount w + handled_errors e
     \<and> handled_errors e \<le> 1
     \<and> step cfg e (w\<lparr>unexpectedErrorCount := c\<rparr>) =
         Some (w'\<lparr>unexpectedErrorCount := c + handled_errors e\<rparr>)"
proof -
  have le: "handled_errors e \<le> 1"
    by (cases e rule: handled_errors.cases) simp_all
  have main: "unexpectedErrorCount w' = unexpectedErrorCount w + handled_errors e
     \<and> step cfg e (w\<lparr>unexpectedErrorCount := c\<rparr>) =
         Some (w'\<lparr>unexpectedErrorCount := c + handled_errors e\<rparr>)"
  proof (cases e)
    case (Fire h)
    then show ?thesis using assms by (auto split: if_splits)
  next
    case (TickFindOne r)
    then have w': "w' = executeConcurrently cfg r (w\<lparr>ticks := ticks w - 1\<rparr>)" and t: "ticks w > 0"
      using assms by (auto split: if_splits)
    let ?v = "w\<lparr>ticks := ticks w - 1\<rparr>"
    have u: "w\<lparr>unexpectedErrorCount := c, ticks := ticks w - 1\<rparr> = ?v\<lparr>unexpectedErrorCount := c\<rparr>"
      by simp
    have "step cfg e (w\<lparr>unexpectedErrorCount := c\<rparr>)
        = Some (executeConcurrently cfg r (w\<lparr>unexpectedErrorCount := c, ticks := ticks w - 1\<rparr>))"
      using t by (simp add: TickFindOne)
    also have "\<dots> = Some (executeConcurrently cfg r (?v\<lparr>unexpectedErrorCount := c\<rparr>))"
      by (simp only: u)
    also have "\<dots> = Some (w'\<lparr>unexpectedErrorCount := c + handled_errors e\<rparr>)"
      using executeConcurrently_count [where cfg = cfg and r = r and w = ?v and c = c]
      by (simp only: w' TickFindOne)
    finally show ?thesis
      using executeConcurrently_count [where cfg = cfg and r = r and w = ?v and c = c]
      by (simp add: w' TickFindOne)
  next
    case (Settle p out)
    then have w': "w' = settle cfg p out w" and t: "p \<in> set (unsettled w)"
      using assms by (auto split: if_splits)
    show ?thesis using settle_count [where cfg = cfg and p = p and out = out and w = w and c = c] t by (simp add: Settle w')
  next
    case StopCall
    obtain w1 r where sb: "stop_begin cfg w = (w1, r)" by (cases "stop_begin cfg w")
    with stop_begin_count [where cfg = cfg and w = w and c = c]
    have "unexpectedErrorCount w1 = unexpectedErrorCount w"
      "stop_begin cfg (w\<lparr>unexpectedErrorCount := c\<rparr>) = (w1\<lparr>unexpectedErrorCount := c\<rparr>, r)"
      by simp_all
    then show ?thesis using assms StopCall sb by (auto split: option.splits)
  next
    case (StopReturn k)
    then show ?thesis using assms by (auto simp: all_settled_def split: if_splits)
  next
    case StartCall
    obtain w1 r where sb: "stop_begin cfg w = (w1, r)" by (cases "stop_begin cfg w")
    with stop_begin_count [where cfg = cfg and w = w and c = c]
    have "unexpectedErrorCount w1 = unexpectedErrorCount w"
      "stop_begin cfg (w\<lparr>unexpectedErrorCount := c\<rparr>) = (w1\<lparr>unexpectedErrorCount := c\<rparr>, r)"
      by simp_all
    then show ?thesis using assms StartCall sb by (auto split: option.splits)
  next
    case (StartStopDone k)
    then show ?thesis using assms
      by (auto simp: all_settled_def split: if_splits start_phase.splits)
  next
    case (StartFindOne k r now)
    let ?v = "w\<lparr>starts := drop_nth k (starts w)\<rparr>"
    obtain x w1 where sr: "start_resume cfg r now ?v = (x, w1)"
      by (cases "start_resume cfg r now ?v")
    from start_resume_count [where cfg = cfg and r = r and now = now and w = ?v and c = c] sr
    have "unexpectedErrorCount w1 = unexpectedErrorCount w"
      "start_resume cfg r now (?v\<lparr>unexpectedErrorCount := c\<rparr>) = (x, w1\<lparr>unexpectedErrorCount := c\<rparr>)"
      by simp_all
    then show ?thesis using assms StartFindOne sr
      by (auto simp: count_update_out split: if_splits option.splits)
  next
    case (ExecuteOnce r out)
    then have w': "w' = snd (executeOnce cfg r out w)" using assms by auto
    show ?thesis using executeOnce_count [where cfg = cfg and r = r and out = out and w = w and c = c] by (simp add: ExecuteOnce w')
  next
    case (GetJobDescription r)
    then have w': "w' = snd (getJobDescription cfg r w)" using assms by auto
    show ?thesis
      using getJobDescription_count [where cfg = cfg and r = r and w = w and c = c]
      by (simp add: GetJobDescription w')
  qed
  from le main show ?thesis by (simp add: getUnexpectedErrorCount_def)
qed

theorem unexpectedErrorCount_monotone_unread_witness:
  "step example_config (Settle 1 (Rejects (other ''boom'')))
     (initial_world\<lparr>pendingExecutions := [1], unsettled := [1]\<rparr>)
   = Some (initial_world\<lparr>unexpectedErrorCount := 1,
        logs := [LogError ''an unexpected error occurred while running job'' executeJob ''job''
                   (other ''boom'')],
        history := [Settled 1]\<rparr>)
   \<and> step example_config (Settle 1 (Rejects (other ''boom'')))
     (initial_world\<lparr>pendingExecutions := [1], unsettled := [1], unexpectedErrorCount := 7\<rparr>)
   = Some (initial_world\<lparr>unexpectedErrorCount := 8,
        logs := [LogError ''an unexpected error occurred while running job'' executeJob ''job''
                   (other ''boom'')],
        history := [Settled 1]\<rparr>)"
proof -
  let ?w = "initial_world\<lparr>pendingExecutions := [1], unsettled := [1]\<rparr>"
  let ?w' = "initial_world\<lparr>unexpectedErrorCount := 1,
        logs := [LogError ''an unexpected error occurred while running job'' executeJob ''job''
                   (other ''boom'')],
        history := [Settled 1]\<rparr>"
  have s: "step example_config (Settle 1 (Rejects (other ''boom''))) ?w = Some ?w'"
    by (simp add: run_defs)
  from unexpectedErrorCount_monotone_unread [OF s, of 7] s show ?thesis
    by (simp add: initial_world_def)
qed

subsection \<open>executeOnce and a rejecting executor\<close>

text \<open>
  C10. When the definition is found and the executor's promise rejects with \<open>e\<close>, the
  promise of \<^verbatim>\<open>executeOnce\<close> rejects with \<open>e\<close>: the \<^verbatim>\<open>catch\<close> of \<^verbatim>\<open>executeOnce\<close> is
  not run, no \<open>JobResult\<close> is returned and \<open>unexpectedErrorCount\<close> stays as it was.
  The same rejection in a tick is counted, by the \<^verbatim>\<open>.catch\<close> chained there.
\<close>

theorem executeOnce_rejects_with_executor:
  "executeOnce cfg (Inr (Some j)) (Rejects e) w = (Inl e, w\<lparr>history := history w @ [InvokedOnce]\<rparr>)
   \<and> unexpectedErrorCount (snd (executeOnce cfg (Inr (Some j)) (Rejects e) w)) = unexpectedErrorCount w
   \<and> unexpectedErrorCount (settle cfg p (Rejects e) w) = unexpectedErrorCount w + 1"
  by (simp add: executeOnce_def settle_def handleUnexpectedError_def)

subsection \<open>connect\<close>

lemma connect_result:
  assumes "connect isConnected env u logger w = (Inr c, w')"
  shows "getConnection connectionName w' = Inr c"
  using assms
  by (auto simp: connect_def getConnection_def called_def debug_def Let_def
      split: if_splits option.splits)

text \<open>
  C9. When \<^verbatim>\<open>isConnected()\<close> holds and the connection manager has a connection named
  \<open>momo\<close>, \<^verbatim>\<open>connect\<close> returns that connection and does nothing else: no connection
  is created, no index, nothing is logged. So a second \<^verbatim>\<open>connect\<close>, after one that
  returned a connection which \<^verbatim>\<open>isConnected()\<close> reports, returns the same connection
  and leaves everything as the first call left it, whatever its arguments.
\<close>

theorem connect_idempotent:
  "(isConnected w \<and> connections w connectionName = Some c \<longrightarrow>
      connect isConnected env u logger w = (Inr c, w))
   \<and> (connect isConnected env u logger w = (Inr c, w') \<and> isConnected w' \<longrightarrow>
      connect isConnected env' u' logger' w' = (Inr c, w'))"
proof -
  have "connect isConnected env' u' logger' w' = (Inr c, w')"
    if "connect isConnected env u logger w = (Inr c, w')" and "isConnected w'"
    using connect_result [OF that(1)] that(2) by (simp add: connect_def)
  then show ?thesis
    by (auto simp: connect_def getConnection_def)
qed

theorem connect_idempotent_witness:
  "connect momo_exists all_succeed ''mongodb://localhost'' True empty_process
     = (Inr \<lparr>url = ''mongodb://localhost'', connected = True\<rparr>, connected_process)
   \<and> momo_exists connected_process
   \<and> connections connected_process connectionName
       = Some \<lparr>url = ''mongodb://localhost'', connected = True\<rparr>
   \<and> connect momo_exists all_succeed ''mongodb://elsewhere'' True connected_process
     = (Inr \<lparr>url = ''mongodb://localhost'', connected = True\<rparr>, connected_process)"
proof -
  let ?c = "\<lparr>url = ''mongodb://localhost'', connected = True\<rparr>"
  have a: "connect momo_exists all_succeed ''mongodb://localhost'' True empty_process
      = (Inr ?c, connected_process)"
    by (simp add: connect_def momo_exists_def all_succeed_def empty_process_def called_def
        debug_def connected_process_def Let_def)
  have b: "momo_exists connected_process"
    by (simp add: momo_exists_def connected_process_def)
  have c: "connections connected_process connectionName = Some ?c"
    by (simp add: connected_process_def)
  from connect_idempotent
    [where isConnected = momo_exists and w = connected_process and c = ?c
      and env = all_succeed and u = "''mongodb://elsewhere''" and logger = True]
    connect_idempotent
    [where isConnected = momo_exists and w = empty_process and c = ?c
      and env = all_succeed and u = "''mongodb://localhost''" and logger = True
      and w' = connected_process and env' = all_succeed and u' = "''mongodb://elsewhere''"
      and logger' = True]
    a b c
  show ?thesis by simp
qed

subsection \<open>MongoSchedule\<close>

lemma connect_frame:
  assumes "connect isConnected env u logger w = (r, w1)"
  shows "executions w1 = executions w \<and> pings w1 = pings w \<and> (\<exists>t. trace w1 = trace w @ t)"
  using assms
  by (auto simp: connect_def called_def debug_def Let_def split: if_splits option.splits)

lemma disconnect_effect:
  assumes "disconnect env w = (None, w')"
  shows "executions w' = executions w \<and> pings w' = pings w
     \<and> trace w' = trace w @ [Close connectionName]
     \<and> (\<exists>c. connections w' connectionName = Some c \<and> \<not> connected c)"
  using assms
  by (auto simp: disconnect_def called_def Let_def split: sum.splits option.splits)

text \<open>
  C7. When \<^verbatim>\<open>MongoSchedule.connect\<close> returns a schedule, the schedule has the id that
  \<^verbatim>\<open>uuid()\<close> generated in this call, \<^verbatim>\<open>addSchedule\<close> has created the entry of that id
  and the ping of that id has been started, in this order and after the call of
  \<^verbatim>\<open>uuid()\<close>. When \<^verbatim>\<open>disconnect\<close> of a schedule returns normally, the jobs were
  cancelled, then the ping was stopped, which deleted the schedule's entry, and then the
  connection was closed.
\<close>

theorem MongoSchedule_connect_disconnect:
  "(MongoSchedule_connect isConnected env i u w = (Inr ms, w') \<longrightarrow>
      scheduleId ms = i \<and> executions w' = executions w @ [i] \<and> pings w' = pings w @ [i]
      \<and> (\<exists>t. trace w' = trace w @ Uuid # t @ [AddSchedule i, PingStart i]))
   \<and> (MongoSchedule_disconnect env ms0 w0 = (None, ms1, w1) \<longrightarrow>
      jobSchedulers ms1 = [] \<and> scheduleId ms0 \<notin> set (executions w1)
      \<and> scheduleId ms0 \<notin> set (pings w1)
      \<and> trace w1 = trace w0 @ [Cancel, PingStop (scheduleId ms0), Close connectionName]
      \<and> (\<exists>c. connections w1 connectionName = Some c \<and> \<not> connected c))"
proof (intro conjI impI)
  assume a: "MongoSchedule_connect isConnected env i u w = (Inr ms, w')"
  obtain r v where c: "connect isConnected env u True (called Uuid w) = (r, v)"
    by (cases "connect isConnected env u True (called Uuid w)")
  from connect_frame [OF c] obtain t where
    f: "executions v = executions w" "pings v = pings w" "trace v = trace w @ Uuid # t"
    by (auto simp: called_def)
  from a c have w': "w' = SchedulePing_start i (called (PingStart i) (addSchedule i (called (AddSchedule i) v)))"
    and ms: "ms = \<lparr>scheduleId = i, jobSchedulers = []\<rparr>"
    by (auto simp: MongoSchedule_connect_def Let_def split: sum.splits option.splits)
  show "scheduleId ms = i" using ms by simp
  show "executions w' = executions w @ [i]"
    using w' f by (simp add: SchedulePing_start_def called_def addSchedule_def)
  show "pings w' = pings w @ [i]"
    using w' f by (simp add: SchedulePing_start_def called_def addSchedule_def)
  show "\<exists>t. trace w' = trace w @ Uuid # t @ [AddSchedule i, PingStart i]"
    using w' f by (simp add: SchedulePing_start_def called_def addSchedule_def)
next
  assume a: "MongoSchedule_disconnect env ms0 w0 = (None, ms1, w1)"
  let ?v = "SchedulePing_stop (scheduleId ms0) (called (PingStop (scheduleId ms0)) (called Cancel w0))"
  from a have d: "disconnect env ?v = (None, w1)" and ms1: "ms1 = cancel ms0"
    by (auto simp: MongoSchedule_disconnect_def Let_def cancel_def split: option.splits prod.splits)
  note e = disconnect_effect [OF d]
  show "jobSchedulers ms1 = []" using ms1 by (simp add: cancel_def)
  show "scheduleId ms0 \<notin> set (executions w1)" using e by (simp add: SchedulePing_stop_def called_def)
  show "scheduleId ms0 \<notin> set (pings w1)" using e by (simp add: SchedulePing_stop_def called_def)
  show "trace w1 = trace w0 @ [Cancel, PingStop (scheduleId ms0), Close connectionName]"
    using e by (simp add: SchedulePing_stop_def called_def)
  show "\<exists>c. connections w1 connectionName = Some c \<and> \<not> connected c" using e by simp
qed

theorem MongoSchedule_connect_disconnect_witness:
  "MongoSchedule_connect momo_exists all_succeed ''id-1'' ''mongodb://localhost'' empty_process
     = (Inr \<lparr>scheduleId = ''id-1'', jobSchedulers = []\<rparr>, scheduled_process)
   \<and> executions scheduled_process = [''id-1''] \<and> pings scheduled_process = [''id-1'']
   \<and> (\<exists>ms1 w1.
        MongoSchedule_disconnect all_succeed \<lparr>scheduleId = ''id-1'', jobSchedulers = [''job'']\<rparr>
          scheduled_process = (None, ms1, w1)
        \<and> jobSchedulers ms1 = [] \<and> executions w1 = [] \<and> pings w1 = []
        \<and> trace w1 = trace scheduled_process @ [Cancel, PingStop ''id-1'', Close connectionName]
        \<and> map_option connected (connections w1 connectionName) = Some False)"
proof -
  let ?ms = "\<lparr>scheduleId = ''id-1'', jobSchedulers = [''job'']\<rparr>"
  have a: "MongoSchedule_connect momo_exists all_succeed ''id-1'' ''mongodb://localhost''
             empty_process
      = (Inr \<lparr>scheduleId = ''id-1'', jobSchedulers = []\<rparr>, scheduled_process)"
    by (simp add: MongoSchedule_connect_def connect_def momo_exists_def all_succeed_def
        empty_process_def called_def debug_def connected_process_def scheduled_process_def
        addSchedule_def SchedulePing_start_def Let_def)
  have "\<exists>ms1 w1. MongoSchedule_disconnect all_succeed ?ms scheduled_process = (None, ms1, w1)
      \<and> executions w1 = [] \<and> pings w1 = []"
    by (simp add: MongoSchedule_disconnect_def disconnect_def getConnection_def all_succeed_def
        called_def connected_process_def scheduled_process_def cancel_def SchedulePing_stop_def
        Let_def)
  then obtain ms1 w1 where
    b: "MongoSchedule_disconnect all_succeed ?ms scheduled_process = (None, ms1, w1)"
    and c: "executions w1 = []" "pings w1 = []"
    by blast
  from MongoSchedule_connect_disconnect
    [where isConnected = momo_exists and env = all_succeed and i = "''id-1''"
      and u = "''mongodb://localhost''" and w = empty_process
      and ms = "\<lparr>scheduleId = ''id-1'', jobSchedulers = []\<rparr>" and w' = scheduled_process
      and ?ms0.0 = ?ms and ?w0.0 = scheduled_process and ?ms1.0 = ms1 and ?w1.0 = w1]
    a b c
  show ?thesis
    by (auto simp: scheduled_process_def)
qed

subsection \<open>A tick of the schedule ping\<close>

text \<open>
  C8. A tick of the schedule ping never throws: whatever the store answers, the tick
  returns and its timer stays armed. When a store call of the tick fails, the error of
  the first one that fails is logged with the message
  \<^verbatim>\<open>Pinging or cleaning the Schedules repository failed\<close>, and nothing else is logged;
  when none fails, nothing is logged.
\<close>

theorem SchedulePing_tick_never_throws:
  "fst (SchedulePing_tick i n p env s) = None
   \<and> pingTimer (snd (SchedulePing_tick i n p env s)) = pingTimer s
   \<and> (\<forall>e. isActiveSchedule env = Inl e
          \<or> (\<exists>a. isActiveSchedule env = Inr a) \<and> pingFails env = Some e
          \<or> (\<exists>a. isActiveSchedule env = Inr a) \<and> pingFails env = None \<and> cleanFails env = Some e
        \<longrightarrow> pingLogs (snd (SchedulePing_tick i n p env s)) =
              pingLogs s @
              [LogError ''Pinging or cleaning the Schedules repository failed'' internal [] e])
   \<and> ((\<exists>a. isActiveSchedule env = Inr a) \<and> pingFails env = None \<and> cleanFails env = None
        \<longrightarrow> pingLogs (snd (SchedulePing_tick i n p env s)) = pingLogs s)"
  by (auto simp: SchedulePing_tick_def SchedulePing_try_def Let_def
      split: sum.splits option.splits)

theorem SchedulePing_tick_never_throws_witness:
  "isActiveSchedule failing_ping_env = Inr True
   \<and> pingFails failing_ping_env = Some (other ''I am an error that should be caught'')
   \<and> SchedulePing_tick ''123'' ''schedule'' 1000 failing_ping_env example_ping_state
     = (None, example_ping_state
          \<lparr>wasActive := True, startAllJobsCalls := 1,
           pingLogs := [LogError ''Pinging or cleaning the Schedules repository failed''
                          internal [] (other ''I am an error that should be caught'')]\<rparr>)"
  using SchedulePing_tick_never_throws
    [of "''123''" "''schedule''" 1000 failing_ping_env example_ping_state]
  by (simp add: SchedulePing_tick_def SchedulePing_try_def failing_ping_env_def
      example_ping_state_def)

end
